theory Spec2Isabelle
  imports Complex_Main
begin

section \<open>The command-center application footer\<close>

text \<open>
  A shallow embedding of the component \<^verbatim>\<open>ApplicationFooter\<close> of
  \<^verbatim>\<open>components/CommandCenter/ApplicationFooter/index.tsx\<close>. The component is one
  function from a props object to a tree of elements. A property read of a JavaScript
  object may yield \<^verbatim>\<open>undefined\<close>, so every field the component reads is an
  \<open>option\<close>; the optional chains (\<^verbatim>\<open>?.\<close>) of the source are \<open>Option.bind\<close> and
  \<open>map_option\<close>. An unguarded destructuring of an absent object raises a TypeError, which
  is the \<open>Inl\<close> branch of the result: the component destructures the item (line 27) and
  every member of the list of buttons (lines 55 to 60).
\<close>

subsection \<open>Data model\<close>

record DisplaySettings =
  color_uuid :: "string option"

text \<open>
  A button descriptor. \<open>'k\<close> is the type of key codes; a keyboard shortcut is a list of
  key-code sequences, and the source guards both the list and each sequence with
  \<^verbatim>\<open>?.\<close>.
\<close>

record 'k Button =
  display_settings :: "DisplaySettings option"
  keyboard_shortcuts :: "'k list option list option"
  label :: "string option"
  tooltip :: "string option"

text \<open>
  An application. A member of its list of buttons may itself be absent
  (\<^verbatim>\<open>undefined\<close> or \<^verbatim>\<open>null\<close>).
\<close>

record 'k Application =
  buttons :: "'k Button option list option"
  app_uuid :: "string option"

record 'k Item =
  applications :: "'k Application list option"
  title :: "string option"
  item_uuid :: "string option"

text \<open>
  The props. \<open>'h\<close> is the type of the values the component only passes on
  (\<^verbatim>\<open>executeAction\<close>, \<^verbatim>\<open>removeApplication\<close>, \<^verbatim>\<open>refError\<close>,
  \<^verbatim>\<open>applicationsRef\<close>).
\<close>

record ('k, 'h) ApplicationProps =
  application :: "'k Application option"
  applicationsRef :: 'h
  executeAction :: 'h
  focusedItemIndex :: "int option"
  item :: "'k Item option"
  removeApplication :: 'h
  refError :: 'h

text \<open>The object literal handed to \<^verbatim>\<open>executeButtonActions\<close> (lines 77 to 85).\<close>

record ('k, 'h) ButtonActionArgs =
  args_application :: "'k Application option"
  args_button :: "'k Button"
  args_executeAction :: 'h
  args_focusedItemIndex :: "int option"
  args_item :: "'k Item option"
  args_refError :: 'h
  args_removeApplication :: 'h

text \<open>
  An effect is a state transformer with a result: what a call of the external
  \<^verbatim>\<open>executeButtonActions\<close> does to the world \<open>'w\<close>, and what it returns.
\<close>

type_synonym ('r, 'w) effect = "'w \<Rightarrow> 'r \<times> 'w"

text \<open>The value \<^verbatim>\<open>getIconColor\<close> returns; the component reads \<^verbatim>\<open>accent\<close> only.\<close>

record IconColor =
  accent :: "string option"

text \<open>
  What the module imports and this file does not define: the two lookups by item, the
  table from key codes to display symbols (a plain object, so a key it does not hold reads
  as \<^verbatim>\<open>undefined\<close>), the two spacing constants and the action executor. They are
  parameters of the model. JavaScript numbers are modelled as rationals: the component
  only doubles \<^verbatim>\<open>UNIT\<close> and multiplies it by 1.5.
\<close>

record ('k, 'h, 'icon, 'r, 'w) Imports =
  getIcon :: "'k Item \<Rightarrow> 'icon"
  getIconColor :: "'k Item \<Rightarrow> IconColor option"
  KEY_CODE_KEY_SYMBOL_MAPPING :: "'k \<Rightarrow> string option"
  PADDING_UNITS :: rat
  UNIT :: rat
  executeButtonActions :: "('k, 'h) ButtonActionArgs \<Rightarrow> ('r, 'w) effect"

subsection \<open>Element trees\<close>

text \<open>
  \<^verbatim>\<open>KeyTextsPostitionEnum\<close> is declared with \<^verbatim>\<open>KeyboardShortcutButton\<close>;
  \<^verbatim>\<open>RIGHT\<close> is the member used here.
\<close>

datatype KeyTextsPostitionEnum = RIGHT

text \<open>
  The props of a \<^verbatim>\<open>KeyboardShortcutButton\<close> element, in the order of lines 68 to 86.
  \<open>'c\<close> is the type of the click handler; \<open>default_prop\<close> is the prop
  \<^verbatim>\<open>default\<close>, renamed because HOL has a constant of that name.
\<close>

datatype 'c KeyboardShortcutButtonProps =
  KeyboardShortcutButtonProps
    (addPlusSignBetweenKeys: bool)
    (bold: bool)
    (compact: bool)
    (default_prop: bool)
    (keyTextGroups: "string option list option list option")
    (keyTextsPosition: KeyTextsPostitionEnum)
    (noBackground: bool)
    (onClick: 'c)
    (uuid: string)

text \<open>
  The tree the JSX builds. A child in braces is a JavaScript value: \<^verbatim>\<open>undefined\<close>,
  \<^verbatim>\<open>false\<close>, a string or an array of children. A boolean prop written without a
  value is \<open>True\<close>, one not written is \<open>False\<close>; a string prop not written is \<open>None\<close>.
  The arguments of the constructors are the props the component writes:
  \<^item> \<open>FlexContainer alignItems fullWidth justifyContent key children\<close>,
  \<^item> \<open>Flex alignItems flex children\<close>,
  \<^item> \<open>IconElement Icon fill size\<close>, for the component \<^verbatim>\<open>getIcon\<close> returned,
  \<^item> \<open>Div marginRight\<close>, for the \<^verbatim>\<open>div\<close> whose style sets the right margin,
  \<^item> \<open>Text default weightStyle children\<close>,
  \<^item> \<open>Spacing mr\<close>,
  \<^item> \<open>KeyboardShortcutButton props children\<close>.
\<close>

datatype ('icon, 'c) view =
    JSUndefined
  | JSFalse
  | JSString string
  | JSArray "('icon, 'c) view list"
  | FlexContainer "string option" bool "string option" "string option" "('icon, 'c) view list"
  | Flex "string option" rat "('icon, 'c) view list"
  | IconElement 'icon "string option" rat
  | Div rat
  | Text bool nat "('icon, 'c) view list"
  | Spacing rat
  | KeyboardShortcutButton "'c KeyboardShortcutButtonProps" "('icon, 'c) view list"

datatype error = TypeError

subsection \<open>JavaScript helpers\<close>

text \<open>A natural number in a template literal: its decimal digits.\<close>

fun number_toString :: "nat \<Rightarrow> string" where
  "number_toString n =
     (if n < 10 then [char_of (48 + n)]
      else number_toString (n div 10) @ [char_of (48 + n mod 10)])"

declare number_toString.simps [simp del]

text \<open>A possibly absent string in a template literal.\<close>

definition template_string :: "string option \<Rightarrow> string" where
  "template_string v = (case v of None \<Rightarrow> ''undefined'' | Some s \<Rightarrow> s)"

text \<open>A possibly absent string as a child in braces.\<close>

definition string_child :: "string option \<Rightarrow> ('icon, 'c) view" where
  "string_child v = (case v of None \<Rightarrow> JSUndefined | Some s \<Rightarrow> JSString s)"

text \<open>
  \<^verbatim>\<open>Array.prototype.map\<close> with a callback that may raise: the callback is given each
  member and its index, in order, and the first error ends the loop.
\<close>

fun array_map :: "('a \<Rightarrow> nat \<Rightarrow> error + 'b) \<Rightarrow> nat \<Rightarrow> 'a list \<Rightarrow> error + 'b list" where
  "array_map f idx [] = Inr []"
| "array_map f idx (x # xs) =
     (case f x idx of
        Inl e \<Rightarrow> Inl e
      | Inr y \<Rightarrow>
          (case array_map f (Suc idx) xs of
             Inl e \<Rightarrow> Inl e
           | Inr ys \<Rightarrow> Inr (y # ys)))"

subsection \<open>The component\<close>

text \<open>
  The arrow function given to \<^verbatim>\<open>buttons.map\<close> (lines 54 to 92), with the variables
  it closes over as arguments. The click handler \<^verbatim>\<open>() => executeButtonActions({...})\<close>
  is the suspended call: the effect of \<^verbatim>\<open>executeButtonActions\<close> at the object literal.
  The callback destructures the member it is given (lines 55 to 60), which raises a
  TypeError when the member is absent.
\<close>

definition buttons_map_callback ::
  "('k, 'h, 'icon, 'r, 'w) Imports \<Rightarrow> ('k, 'h) ApplicationProps \<Rightarrow> nat \<Rightarrow>
   'k Button option \<Rightarrow> nat \<Rightarrow> error + ('icon, ('r, 'w) effect) view" where
  "buttons_map_callback env props buttonsCount member idx =
     (case member of
        None \<Rightarrow> Inl TypeError
      | Some button \<Rightarrow>
          (let displaySettings = display_settings button;
               keyboardShortcuts = keyboard_shortcuts button;
               label = label button;
               tooltip = tooltip button;
               colorUUID = Option.bind displaySettings color_uuid
           in Inr
             (FlexContainer (Some ''center'') False None label
                [if idx \<ge> 1 then Spacing (PADDING_UNITS env) else JSFalse,
                 KeyboardShortcutButton
                   (KeyboardShortcutButtonProps
                      True
                      True
                      True
                      (idx = 0 \<and> buttonsCount \<ge> 2)
                      (map_option
                         (map (map_option (map (KEY_CODE_KEY_SYMBOL_MAPPING env))))
                         keyboardShortcuts)
                      RIGHT
                      (idx = 0 \<and> buttonsCount \<ge> 2)
                      (executeButtonActions env
                         \<lparr>args_application = application props,
                          args_button = button,
                          args_executeAction = executeAction props,
                          args_focusedItemIndex = focusedItemIndex props,
                          args_item = item props,
                          args_refError = refError props,
                          args_removeApplication = removeApplication props\<rparr>)
                      (template_string (Option.bind (item props) item_uuid) @ ''-''
                         @ template_string (Option.bind (application props) app_uuid) @ ''-''
                         @ number_toString idx @ ''-button''))
                   [string_child label]])))"

text \<open>
  The component (lines 18 to 96). Destructuring an absent \<^verbatim>\<open>item\<close> (line 27) raises a
  TypeError before anything is built, and an error of the callback ends the rendering.
\<close>

definition ApplicationFooter ::
  "('k, 'h, 'icon, 'r, 'w) Imports \<Rightarrow> ('k, 'h) ApplicationProps \<Rightarrow>
   error + ('icon, ('r, 'w) effect) view" where
  "ApplicationFooter env props =
     (case item props of
        None \<Rightarrow> Inl TypeError
      | Some it \<Rightarrow>
          (let applications = applications it;
               title = title it;
               Icon = getIcon env it;
               iconColor = getIconColor env it;
               buttonsCount =
                 (case Option.bind (application props) buttons of
                    None \<Rightarrow> 0
                  | Some bs \<Rightarrow> length bs)
           in (case (case Option.bind (application props) buttons of
                       None \<Rightarrow> Inr JSUndefined
                     | Some bs \<Rightarrow>
                         map_sum id JSArray
                           (array_map (buttons_map_callback env props buttonsCount) 0 bs)) of
                 Inl e \<Rightarrow> Inl e
               | Inr buttonElements \<Rightarrow>
                   Inr
                     (FlexContainer (Some ''center'') True (Some ''space-between'') None
                        [Flex (Some ''center'') 1
                           [IconElement Icon (Option.bind iconColor accent) (2 * UNIT env),
                            Div (3 / 2 * UNIT env),
                            Text True 4 [string_child title],
                            Spacing (PADDING_UNITS env)],
                         FlexContainer (Some ''center'') False None None
                           [buttonElements]]))))"

subsection \<open>Reading an element tree\<close>

text \<open>
  What React displays of a list of children: nothing for \<^verbatim>\<open>undefined\<close> and
  \<^verbatim>\<open>false\<close>, the members of an array in their order, every other child as it is.
\<close>

fun displayed :: "('icon, 'c) view list \<Rightarrow> ('icon, 'c) view list" where
  "displayed [] = []"
| "displayed (JSUndefined # vs) = displayed vs"
| "displayed (JSFalse # vs) = displayed vs"
| "displayed (JSArray xs # vs) = displayed xs @ displayed vs"
| "displayed (v # vs) = v # displayed vs"

fun children_of :: "('icon, 'c) view \<Rightarrow> ('icon, 'c) view list" where
  "children_of (JSArray cs) = cs"
| "children_of (FlexContainer a f j k cs) = cs"
| "children_of (Flex a f cs) = cs"
| "children_of (Text d w cs) = cs"
| "children_of (KeyboardShortcutButton p cs) = cs"
| "children_of v = []"

text \<open>The \<^verbatim>\<open>key\<close> of an element; only a \<^verbatim>\<open>FlexContainer\<close> is given one here.\<close>

fun key_of :: "('icon, 'c) view \<Rightarrow> string option" where
  "key_of (FlexContainer a f j k cs) = k"
| "key_of v = None"

text \<open>The button controls of a tree, in document order.\<close>

fun button_controls :: "('icon, 'c) view \<Rightarrow> 'c KeyboardShortcutButtonProps list" where
  "button_controls (KeyboardShortcutButton p cs) = p # concat (map button_controls cs)"
| "button_controls (JSArray cs) = concat (map button_controls cs)"
| "button_controls (FlexContainer a f j k cs) = concat (map button_controls cs)"
| "button_controls (Flex a f cs) = concat (map button_controls cs)"
| "button_controls (Text d w cs) = concat (map button_controls cs)"
| "button_controls v = []"

text \<open>
  The right-hand region of the footer: what is displayed inside the second child of the
  root, one element for each button.
\<close>

definition button_region :: "('icon, 'c) view \<Rightarrow> ('icon, 'c) view list" where
  "button_region v =
     (case children_of v of
        [l, r] \<Rightarrow> displayed (children_of r)
      | _ \<Rightarrow> [])"

definition rendered_buttons :: "('icon, 'c) view \<Rightarrow> 'c KeyboardShortcutButtonProps list" where
  "rendered_buttons v = concat (map button_controls (button_region v))"

text \<open>
  The buttons of the props: the members of \<^verbatim>\<open>application?.buttons\<close> that are
  present, none when the application or the list is absent.
\<close>

definition buttons_of :: "('k, 'h) ApplicationProps \<Rightarrow> 'k Button list" where
  "buttons_of props =
     (case Option.bind (application props) buttons of
        None \<Rightarrow> []
      | Some bs \<Rightarrow> List.map_filter (\<lambda>member. member) bs)"

text \<open>No member of the list of buttons is absent.\<close>

definition buttons_present :: "('k, 'h) ApplicationProps \<Rightarrow> bool" where
  "buttons_present props \<longleftrightarrow>
     (case Option.bind (application props) buttons of
        None \<Rightarrow> True
      | Some bs \<Rightarrow> list_all (\<lambda>member. member \<noteq> None) bs)"

text \<open>The element the callback returns for a button that is present.\<close>

definition button_element ::
  "('k, 'h, 'icon, 'r, 'w) Imports \<Rightarrow> ('k, 'h) ApplicationProps \<Rightarrow> nat \<Rightarrow>
   'k Button \<Rightarrow> nat \<Rightarrow> ('icon, ('r, 'w) effect) view" where
  "button_element env props buttonsCount button idx =
     projr (buttons_map_callback env props buttonsCount (Some button) idx)"

subsection \<open>Executors\<close>

text \<open>
  The module environment with another action executor, and an executor that also records
  every call it receives, in order: with it, the world after a click tells how often and
  with which argument the click called the executor.
\<close>

definition with_executor ::
  "('k, 'h, 'icon, 'r, 'w) Imports \<Rightarrow> (('k, 'h) ButtonActionArgs \<Rightarrow> ('r2, 'w2) effect) \<Rightarrow>
   ('k, 'h, 'icon, 'r2, 'w2) Imports" where
  "with_executor env f =
     \<lparr>getIcon = getIcon env,
      getIconColor = getIconColor env,
      KEY_CODE_KEY_SYMBOL_MAPPING = KEY_CODE_KEY_SYMBOL_MAPPING env,
      PADDING_UNITS = PADDING_UNITS env,
      UNIT = UNIT env,
      executeButtonActions = f\<rparr>"

definition logged ::
  "(('k, 'h) ButtonActionArgs \<Rightarrow> ('r, 'w) effect) \<Rightarrow>
   ('k, 'h) ButtonActionArgs \<Rightarrow> ('r, 'w \<times> ('k, 'h) ButtonActionArgs list) effect" where
  "logged f a = (\<lambda>(w, calls). case f a w of (r, w') \<Rightarrow> (r, (w', calls @ [a])))"

text \<open>A result with every click handler replaced by the unit value.\<close>

definition without_handlers :: "error + ('icon, 'c) view \<Rightarrow> error + ('icon, unit) view" where
  "without_handlers r = map_sum id (map_view id (\<lambda>h. ())) r"

subsection \<open>What the component reads of its inputs\<close>

text \<open>The key codes in the keyboard shortcuts of the buttons, in order.\<close>

definition button_key_codes :: "'k Button \<Rightarrow> 'k list" where
  "button_key_codes button =
     concat (map (\<lambda>arr. case arr of None \<Rightarrow> [] | Some ks \<Rightarrow> ks)
       (case keyboard_shortcuts button of None \<Rightarrow> [] | Some seqs \<Rightarrow> seqs))"

definition key_codes :: "('k, 'h) ApplicationProps \<Rightarrow> 'k list" where
  "key_codes props = concat (map button_key_codes (buttons_of props))"

text \<open>
  Two environments whose lookups agree where the component consults them for the given
  props: the icon and the colour of the item, the symbols of the key codes of the buttons,
  and the two spacing constants.
\<close>

definition same_lookups ::
  "('k, 'h, 'icon, 'r, 'w) Imports \<Rightarrow> ('k, 'h, 'icon, 'r2, 'w2) Imports \<Rightarrow>
   ('k, 'h) ApplicationProps \<Rightarrow> bool" where
  "same_lookups env env' props \<longleftrightarrow>
     (case item props of
        None \<Rightarrow> True
      | Some it \<Rightarrow> getIcon env it = getIcon env' it \<and> getIconColor env it = getIconColor env' it)
     \<and> list_all (\<lambda>k. KEY_CODE_KEY_SYMBOL_MAPPING env k = KEY_CODE_KEY_SYMBOL_MAPPING env' k)
           (key_codes props)
     \<and> PADDING_UNITS env = PADDING_UNITS env'
     \<and> UNIT env = UNIT env'"

text \<open>The props with the accent-colour identifier of every button removed.\<close>

definition forget_color_uuid :: "('k, 'h) ApplicationProps \<Rightarrow> ('k, 'h) ApplicationProps" where
  "forget_color_uuid props =
     props\<lparr>application :=
       map_option
         (\<lambda>app. app\<lparr>buttons :=
            map_option
              (map (map_option (\<lambda>button. button\<lparr>display_settings :=
                 map_option (\<lambda>d. d\<lparr>color_uuid := None\<rparr>) (display_settings button)\<rparr>)))
              (buttons app)\<rparr>)
         (application props)\<rparr>"

subsection \<open>The display of a key-text group\<close>

fun join_with :: "'a \<Rightarrow> 'a list \<Rightarrow> 'a list" where
  "join_with sep [] = []"
| "join_with sep [x] = [x]"
| "join_with sep (x # y # ys) = x # sep # join_with sep (y # ys)"

text \<open>
  Modelled from the spec: \<^verbatim>\<open>KeyboardShortcutButton\<close>
  (\<^verbatim>\<open>@oracle/elements/Button/KeyboardShortcutButton\<close>), which draws the key texts, is not
  among the sources at hand. The spec says that a key-text group is shown as its symbols in
  their order with a joining separator; the separator is a parameter, and a symbol the
  table did not give stays absent.
\<close>

definition shown_key_text_group :: "string \<Rightarrow> string option list \<Rightarrow> string option list" where
  "shown_key_text_group sep keyTextGroup = join_with (Some sep) keyTextGroup"

subsection \<open>Concrete inputs\<close>

text \<open>The place-of-interest sign (U+2318), in UTF-8.\<close>

definition command_symbol :: string where
  "command_symbol = [CHR 0xE2, CHR 0x8C, CHR 0x98]"

text \<open>
  An environment whose table knows the key codes 91 and 75, and whose executor counts its
  calls in the world and returns its argument.
\<close>

definition example_env ::
  "(nat, string, string, (nat, string) ButtonActionArgs, nat) Imports" where
  "example_env =
     \<lparr>getIcon = (\<lambda>it. ''PipelineIcon''),
      getIconColor = (\<lambda>it. Some \<lparr>accent = Some ''blue''\<rparr>),
      KEY_CODE_KEY_SYMBOL_MAPPING = [91 \<mapsto> command_symbol, 75 \<mapsto> ''K''],
      PADDING_UNITS = 2,
      UNIT = 8,
      executeButtonActions = (\<lambda>a n. (a, Suc n))\<rparr>"

definition run_button :: "string \<Rightarrow> nat Button" where
  "run_button colour =
     \<lparr>display_settings = Some \<lparr>color_uuid = Some colour\<rparr>,
      keyboard_shortcuts = Some [Some [91, 75]],
      label = Some ''Run'',
      tooltip = Some ''Run the pipeline''\<rparr>"

definition close_button :: "nat Button" where
  "close_button =
     \<lparr>display_settings = None,
      keyboard_shortcuts = None,
      label = Some ''Close'',
      tooltip = None\<rparr>"

definition example_item :: "nat Item" where
  "example_item =
     \<lparr>applications = None, title = Some ''Pipelines'', item_uuid = Some ''item1''\<rparr>"

definition example_props :: "nat Application option \<Rightarrow> (nat, string) ApplicationProps" where
  "example_props app =
     \<lparr>application = app,
      applicationsRef = ''applicationsRef'',
      executeAction = ''executeAction'',
      focusedItemIndex = Some 0,
      item = Some example_item,
      removeApplication = ''removeApplication'',
      refError = ''refError''\<rparr>"

text \<open>Props with the two buttons, with one button, and with the first button in a colour.\<close>

definition two_buttons :: "string \<Rightarrow> (nat, string) ApplicationProps" where
  "two_buttons colour =
     example_props
       (Some \<lparr>buttons = Some [Some (run_button colour), Some close_button],
              app_uuid = Some ''app1''\<rparr>)"

definition one_button :: "(nat, string) ApplicationProps" where
  "one_button =
     example_props (Some \<lparr>buttons = Some [Some close_button], app_uuid = Some ''app1''\<rparr>)"

section \<open>Properties\<close>

lemma ApplicationFooter_no_item:
  "item props = None \<Longrightarrow> ApplicationFooter env props = Inl TypeError"
  by (simp add: ApplicationFooter_def)

lemma callback_Some:
  "buttons_map_callback env props n (Some button) idx =
   Inr (button_element env props n button idx)"
  by (simp add: button_element_def buttons_map_callback_def Let_def)

lemma array_map_present:
  "array_map (buttons_map_callback env props n) m (map Some bs) =
   Inr (map (\<lambda>(idx, button). button_element env props n button idx) (enumerate m bs))"
  by (induction bs arbitrary: m) (simp_all add: callback_Some)

lemma array_map_absent:
  "None \<in> set bs \<Longrightarrow> array_map (buttons_map_callback env props n) m bs = Inl TypeError"
proof (induction bs arbitrary: m)
  case Nil
  then show ?case by simp
next
  case (Cons b bs)
  show ?case
  proof (cases b)
    case None
    then show ?thesis by (simp add: buttons_map_callback_def)
  next
    case (Some button)
    with Cons.prems have "None \<in> set bs" by simp
    then have "array_map (buttons_map_callback env props n) (Suc m) bs = Inl TypeError"
      by (rule Cons.IH)
    with Some show ?thesis by (simp add: callback_Some)
  qed
qed

lemma members_present:
  "list_all (\<lambda>member. member \<noteq> None) bs \<Longrightarrow>
   map Some (List.map_filter (\<lambda>member. member) bs) = bs"
  by (induction bs) (auto simp: map_filter_simps)

lemma raw_buttons:
  assumes "buttons_present props" and "Option.bind (application props) buttons = Some bs"
  shows "bs = map Some (buttons_of props)" and "length bs = length (buttons_of props)"
proof -
  from assms have "list_all (\<lambda>member. member \<noteq> None) bs"
    by (simp add: buttons_present_def)
  then have "map Some (List.map_filter (\<lambda>member. member) bs) = bs"
    by (rule members_present)
  with assms(2) show "bs = map Some (buttons_of props)"
    by (simp add: buttons_of_def)
  then have "length bs = length (map Some (buttons_of props))" by simp
  then show "length bs = length (buttons_of props)" by simp
qed

lemma ApplicationFooter_absent_button:
  assumes "Option.bind (application props) buttons = Some bs" and "None \<in> set bs"
  shows "ApplicationFooter env props = Inl TypeError"
proof (cases "item props")
  case None
  then show ?thesis by (rule ApplicationFooter_no_item)
next
  case (Some it)
  have "array_map (buttons_map_callback env props (length bs)) 0 bs = Inl TypeError"
    using assms(2) by (rule array_map_absent)
  with assms(1) Some show ?thesis
    by (simp add: ApplicationFooter_def Let_def)
qed

lemma ApplicationFooter_Inr_item:
  "ApplicationFooter env props = Inr v \<Longrightarrow> \<exists>it. item props = Some it"
  by (cases "item props") (simp_all add: ApplicationFooter_def)

lemma ApplicationFooter_Inr_buttons:
  assumes "ApplicationFooter env props = Inr v"
  shows "buttons_present props"
proof (cases "Option.bind (application props) buttons")
  case None
  then show ?thesis by (simp add: buttons_present_def)
next
  case (Some bs)
  have "None \<notin> set bs"
  proof
    assume "None \<in> set bs"
    with Some have "ApplicationFooter env props = Inl TypeError"
      by (rule ApplicationFooter_absent_button)
    with assms show False by simp
  qed
  then have "\<forall>member \<in> set bs. member \<noteq> None"
    by metis
  then have "list_all (\<lambda>member. member \<noteq> None) bs"
    by (simp only: list_all_iff)
  with Some show ?thesis
    by (simp add: buttons_present_def)
qed

text \<open>The tree of a rendering that succeeds.\<close>

lemma ApplicationFooter_tree:
  assumes "item props = Some it" and "buttons_present props"
  shows "ApplicationFooter env props =
         Inr (FlexContainer (Some ''center'') True (Some ''space-between'') None
                [Flex (Some ''center'') 1
                   [IconElement (getIcon env it) (Option.bind (getIconColor env it) accent)
                      (2 * UNIT env),
                    Div (3 / 2 * UNIT env),
                    Text True 4 [string_child (title it)],
                    Spacing (PADDING_UNITS env)],
                 FlexContainer (Some ''center'') False None None
                   [case Option.bind (application props) buttons of
                      None \<Rightarrow> JSUndefined
                    | Some bs \<Rightarrow>
                        JSArray
                          (map (\<lambda>(idx, button).
                                  button_element env props (length (buttons_of props)) button idx)
                             (enumerate 0 (buttons_of props)))]])"
proof (cases "Option.bind (application props) buttons")
  case None
  with assms(1) show ?thesis by (simp add: ApplicationFooter_def)
next
  case (Some bs)
  note raw = raw_buttons [OF assms(2) Some]
  have "array_map (buttons_map_callback env props (length bs)) 0 bs =
        Inr (map (\<lambda>(idx, button).
                    button_element env props (length (buttons_of props)) button idx)
               (enumerate 0 (buttons_of props)))"
    unfolding raw(2) by (subst raw(1)) (rule array_map_present)
  with assms(1) Some show ?thesis by (simp add: ApplicationFooter_def)
qed

lemma ApplicationFooter_Inr:
  "item props = Some it \<Longrightarrow> buttons_present props \<Longrightarrow>
   ApplicationFooter env props = Inr (projr (ApplicationFooter env props))"
  by (simp add: ApplicationFooter_tree)

lemma displayed_elements:
  "(\<And>x. x \<in> set xs \<Longrightarrow> \<exists>a f j k cs. g x = FlexContainer a f j k cs) \<Longrightarrow>
   displayed (map g xs) = map g xs"
proof (induction xs)
  case Nil
  show ?case by simp
next
  case (Cons x xs)
  from Cons.prems [of x] obtain a f j k cs where "g x = FlexContainer a f j k cs"
    by auto
  moreover have "displayed (map g xs) = map g xs"
    using Cons.IH Cons.prems by simp
  ultimately show ?case by simp
qed

lemma buttons_map_callback_element:
  "\<exists>a f j k cs. button_element env props n button idx = FlexContainer a f j k cs"
  unfolding button_element_def buttons_map_callback_def Let_def by simp blast

lemma displayed_callbacks:
  "displayed (map (\<lambda>(idx, button). button_element env props n button idx) xs) =
   map (\<lambda>(idx, button). button_element env props n button idx) xs"
  by (simp add: displayed_elements buttons_map_callback_element case_prod_beta)

lemma button_region_eq:
  assumes "ApplicationFooter env props = Inr v"
  shows "button_region v =
         map (\<lambda>(idx, button).
                button_element env props (length (buttons_of props)) button idx)
           (enumerate 0 (buttons_of props))"
proof -
  from assms obtain it where it: "item props = Some it"
    using ApplicationFooter_Inr_item by blast
  from assms have present: "buttons_present props"
    by (rule ApplicationFooter_Inr_buttons)
  note tree = ApplicationFooter_tree [OF it present, of env]
  show ?thesis
  proof (cases "Option.bind (application props) buttons")
    case None
    with assms tree show ?thesis
      by (auto simp: button_region_def buttons_of_def)
  next
    case (Some bs)
    with assms tree show ?thesis
      by (auto simp: button_region_def displayed_callbacks)
  qed
qed

lemma length_button_region:
  "ApplicationFooter env props = Inr v \<Longrightarrow> length (button_region v) = length (buttons_of props)"
  by (simp add: button_region_eq)

lemma button_region_nth:
  assumes "ApplicationFooter env props = Inr v" and "idx < length (buttons_of props)"
  shows "button_region v ! idx =
         button_element env props (length (buttons_of props)) (buttons_of props ! idx) idx"
  using assms by (simp add: button_region_eq nth_enumerate_eq)

lemma button_controls_string_child: "button_controls (string_child l) = []"
  by (cases l) (simp_all add: string_child_def)

lemma children_of_callback:
  "children_of (button_element env props n button idx) =
   [if 1 \<le> idx then Spacing (PADDING_UNITS env) else JSFalse,
    KeyboardShortcutButton
      (hd (button_controls (button_element env props n button idx)))
      [string_child (label button)]]"
  by (simp add: button_element_def buttons_map_callback_def Let_def
      button_controls_string_child)

lemma button_controls_callback:
  "button_controls (button_element env props n button idx) =
   [KeyboardShortcutButtonProps True True True (idx = 0 \<and> 2 \<le> n)
      (map_option (map (map_option (map (KEY_CODE_KEY_SYMBOL_MAPPING env))))
         (keyboard_shortcuts button))
      RIGHT (idx = 0 \<and> 2 \<le> n)
      (executeButtonActions env
         \<lparr>args_application = application props,
          args_button = button,
          args_executeAction = executeAction props,
          args_focusedItemIndex = focusedItemIndex props,
          args_item = item props,
          args_refError = refError props,
          args_removeApplication = removeApplication props\<rparr>)
      (template_string (Option.bind (item props) item_uuid) @ ''-''
         @ template_string (Option.bind (application props) app_uuid) @ ''-''
         @ number_toString idx @ ''-button'')]"
  by (simp add: button_element_def buttons_map_callback_def Let_def
      button_controls_string_child)

lemma concat_singletons: "concat (map (\<lambda>x. [g x]) xs) = map g xs"
  by (induction xs) simp_all

lemma rendered_buttons_eq:
  assumes "ApplicationFooter env props = Inr v"
  shows "rendered_buttons v =
         map (\<lambda>x. hd (button_controls
                (button_element env props (length (buttons_of props)) (snd x) (fst x))))
           (enumerate 0 (buttons_of props))"
proof -
  have "rendered_buttons v =
        concat (map (\<lambda>x. [hd (button_controls
                (button_element env props (length (buttons_of props)) (snd x) (fst x)))])
           (enumerate 0 (buttons_of props)))"
    unfolding rendered_buttons_def button_region_eq [OF assms]
    by (simp add: button_controls_callback case_prod_beta comp_def)
  then show ?thesis by (simp only: concat_singletons)
qed

lemma length_rendered_buttons:
  "ApplicationFooter env props = Inr v \<Longrightarrow>
   length (rendered_buttons v) = length (buttons_of props)"
  by (simp add: rendered_buttons_eq)

lemma rendered_buttons_nth:
  assumes "ApplicationFooter env props = Inr v" and "idx < length (buttons_of props)"
  shows "[rendered_buttons v ! idx] =
         button_controls
           (button_element env props (length (buttons_of props))
              (buttons_of props ! idx) idx)"
  using assms
  by (simp add: rendered_buttons_eq nth_enumerate_eq button_controls_callback)

lemma button_controls_footer:
  assumes "ApplicationFooter env props = Inr v"
  shows "button_controls v = rendered_buttons v"
proof -
  from assms obtain it where it: "item props = Some it"
    using ApplicationFooter_Inr_item by blast
  from assms have present: "buttons_present props"
    by (rule ApplicationFooter_Inr_buttons)
  note tree = ApplicationFooter_tree [OF it present, of env]
  show ?thesis
  proof (cases "Option.bind (application props) buttons")
    case None
    with assms tree show ?thesis
      by (auto simp: rendered_buttons_def button_region_def
          button_controls_string_child)
  next
    case (Some bs)
    with assms tree show ?thesis
      unfolding rendered_buttons_def button_region_def
      by (auto simp: displayed_callbacks button_controls_string_child)
  qed
qed

lemma item_example_props: "item (example_props app) = Some example_item"
  by (simp add: example_props_def)

lemma buttons_of_two_buttons: "buttons_of (two_buttons c) = [run_button c, close_button]"
  by (simp add: buttons_of_def two_buttons_def example_props_def map_filter_simps)

lemma buttons_of_one_button: "buttons_of one_button = [close_button]"
  by (simp add: buttons_of_def one_button_def example_props_def map_filter_simps)

lemma two_buttons_renders_any:
  "ApplicationFooter env (two_buttons c) =
   Inr (projr (ApplicationFooter env (two_buttons c)))"
proof (rule ApplicationFooter_Inr)
  show "item (two_buttons c) = Some example_item"
    by (simp add: two_buttons_def example_props_def)
  show "buttons_present (two_buttons c)"
    by (simp add: buttons_present_def two_buttons_def example_props_def)
qed

lemma two_buttons_renders:
  "ApplicationFooter example_env (two_buttons c) =
   Inr (projr (ApplicationFooter example_env (two_buttons c)))"
  by (rule two_buttons_renders_any)

lemma one_button_renders:
  "ApplicationFooter example_env one_button =
   Inr (projr (ApplicationFooter example_env one_button))"
proof (rule ApplicationFooter_Inr)
  show "item one_button = Some example_item"
    by (simp add: one_button_def example_props_def)
  show "buttons_present one_button"
    by (simp add: buttons_present_def one_button_def example_props_def)
qed


lemma example_props_renders:
  "buttons_present (example_props app) \<Longrightarrow>
   ApplicationFooter env (example_props app) =
   Inr (projr (ApplicationFooter env (example_props app)))"
  by (rule ApplicationFooter_Inr [OF item_example_props])

lemma buttons_present_example:
  "buttons_present (example_props None)"
  "buttons_present (example_props (Some \<lparr>buttons = None, app_uuid = u\<rparr>))"
  "buttons_present (example_props (Some \<lparr>buttons = Some [], app_uuid = u\<rparr>))"
  "buttons_present (example_props (Some \<lparr>buttons = Some [Some b], app_uuid = u\<rparr>))"
  "buttons_present (example_props (Some \<lparr>buttons = Some [Some b, Some b'], app_uuid = u\<rparr>))"
  by (simp_all add: buttons_present_def example_props_def)

subsection \<open>Styling of the first button\<close>

text \<open>
  C1. When the footer renders and the application has buttons, the control of the button
  at index \<open>idx\<close> is given the default and the no-background styling exactly when
  \<open>idx\<close> is 0 and there are at least two buttons: a sole button is styled as standard,
  and of two or more buttons only the first is de-emphasized.
\<close>

theorem first_button_default_styling:
  assumes "ApplicationFooter env props = Inr v"
    and "idx < length (buttons_of props)"
  shows "length (rendered_buttons v) = length (buttons_of props)
       \<and> (default_prop (rendered_buttons v ! idx) \<longleftrightarrow> idx = 0 \<and> 2 \<le> length (buttons_of props))
       \<and> (noBackground (rendered_buttons v ! idx) \<longleftrightarrow> idx = 0 \<and> 2 \<le> length (buttons_of props))"
proof -
  have "[rendered_buttons v ! idx] =
        button_controls
          (button_element env props (length (buttons_of props))
             (buttons_of props ! idx) idx)"
    using assms by (rule rendered_buttons_nth)
  then have "default_prop (rendered_buttons v ! idx) = (idx = 0 \<and> 2 \<le> length (buttons_of props))"
    and "noBackground (rendered_buttons v ! idx) = (idx = 0 \<and> 2 \<le> length (buttons_of props))"
    by (simp_all add: button_controls_callback)
  moreover have "length (rendered_buttons v) = length (buttons_of props)"
    using assms(1) by (rule length_rendered_buttons)
  ultimately show ?thesis by simp
qed

theorem first_button_default_styling_witness:
  "default_prop
     (rendered_buttons (projr (ApplicationFooter example_env (two_buttons ''red''))) ! 0)
   \<and> noBackground
     (rendered_buttons (projr (ApplicationFooter example_env (two_buttons ''red''))) ! 0)
   \<and> \<not> default_prop
     (rendered_buttons (projr (ApplicationFooter example_env (two_buttons ''red''))) ! 1)
   \<and> \<not> noBackground
     (rendered_buttons (projr (ApplicationFooter example_env (two_buttons ''red''))) ! 1)
   \<and> \<not> default_prop
     (rendered_buttons (projr (ApplicationFooter example_env one_button)) ! 0)
   \<and> \<not> noBackground
     (rendered_buttons (projr (ApplicationFooter example_env one_button)) ! 0)"
  using first_button_default_styling [OF two_buttons_renders, of 0 "''red''"]
    first_button_default_styling [OF two_buttons_renders, of 1 "''red''"]
    first_button_default_styling [OF one_button_renders, of 0]
  by (simp add: buttons_of_two_buttons buttons_of_one_button)

subsection \<open>One control for each button\<close>

text \<open>
  C5. The right-hand region holds one element for each member of
  \<^verbatim>\<open>application.buttons\<close>, in order, and each of them holds exactly one button
  control; it holds no button control when the application is absent, when its list of
  buttons is absent and when that list is empty.
\<close>

theorem one_control_per_button:
  assumes "ApplicationFooter env props = Inr v"
  shows "length (rendered_buttons v) =
           (case application props of
              None \<Rightarrow> 0
            | Some app \<Rightarrow> (case buttons app of None \<Rightarrow> 0 | Some bs \<Rightarrow> length bs))
       \<and> length (button_region v) = length (rendered_buttons v)
       \<and> (\<forall>idx < length (rendered_buttons v).
             buttons_map_callback env props (length (buttons_of props))
               (Some (buttons_of props ! idx)) idx = Inr (button_region v ! idx)
           \<and> button_controls (button_region v ! idx) = [rendered_buttons v ! idx])"
proof -
  have n: "length (rendered_buttons v) = length (buttons_of props)"
    using assms by (rule length_rendered_buttons)
  from assms have present: "buttons_present props"
    by (rule ApplicationFooter_Inr_buttons)
  have cnt: "length (buttons_of props) =
          (case application props of
             None \<Rightarrow> 0
           | Some app \<Rightarrow> (case buttons app of None \<Rightarrow> 0 | Some bs \<Rightarrow> length bs))"
  proof (cases "Option.bind (application props) buttons")
    case None
    then show ?thesis
      by (cases "application props") (simp_all add: buttons_of_def)
  next
    case (Some bs)
    from raw_buttons(2) [OF present Some] Some show ?thesis
      by (cases "application props") simp_all
  qed
  have reg: "length (button_region v) = length (rendered_buttons v)"
    using assms n by (simp add: length_button_region)
  have each: "buttons_map_callback env props (length (buttons_of props))
               (Some (buttons_of props ! idx)) idx = Inr (button_region v ! idx)
           \<and> button_controls (button_region v ! idx) = [rendered_buttons v ! idx]"
    if "idx < length (rendered_buttons v)" for idx
  proof -
    from that n have i: "idx < length (buttons_of props)" by simp
    have "button_region v ! idx =
               button_element env props (length (buttons_of props))
                 (buttons_of props ! idx) idx"
      using assms i by (rule button_region_nth)
    moreover have "[rendered_buttons v ! idx] =
         button_controls
           (button_element env props (length (buttons_of props))
              (buttons_of props ! idx) idx)"
      using assms i by (rule rendered_buttons_nth)
    ultimately show ?thesis by (simp add: callback_Some)
  qed
  from n cnt have "length (rendered_buttons v) =
           (case application props of
              None \<Rightarrow> 0
            | Some app \<Rightarrow> (case buttons app of None \<Rightarrow> 0 | Some bs \<Rightarrow> length bs))"
    by (rule trans)
  then show ?thesis
  proof (intro conjI allI impI)
    show "length (button_region v) = length (rendered_buttons v)" by (rule reg)
  next
    fix idx
    assume i: "idx < length (rendered_buttons v)"
    from each [OF i]
    show "buttons_map_callback env props (length (buttons_of props))
               (Some (buttons_of props ! idx)) idx = Inr (button_region v ! idx)"
      by (rule conjunct1)
  next
    fix idx
    assume i: "idx < length (rendered_buttons v)"
    from each [OF i]
    show "button_controls (button_region v ! idx) = [rendered_buttons v ! idx]"
      by (rule conjunct2)
  qed
qed

theorem one_control_per_button_witness:
  "length (rendered_buttons (projr (ApplicationFooter example_env (two_buttons ''red'')))) = 2
   \<and> length (rendered_buttons (projr (ApplicationFooter example_env one_button))) = 1
   \<and> rendered_buttons (projr (ApplicationFooter example_env (example_props None))) = []
   \<and> rendered_buttons (projr (ApplicationFooter example_env
         (example_props (Some \<lparr>buttons = None, app_uuid = Some ''app1''\<rparr>)))) = []
   \<and> rendered_buttons (projr (ApplicationFooter example_env
         (example_props (Some \<lparr>buttons = Some [], app_uuid = Some ''app1''\<rparr>)))) = []"
  using one_control_per_button [OF two_buttons_renders, of "''red''"]
    one_control_per_button [OF one_button_renders]
    one_control_per_button [OF example_props_renders [OF buttons_present_example(1)],
      of example_env]
    one_control_per_button [OF example_props_renders [OF buttons_present_example(2)],
      of example_env "Some ''app1''"]
    one_control_per_button [OF example_props_renders [OF buttons_present_example(3)],
      of example_env "Some ''app1''"]
  by (simp add: two_buttons_def one_button_def example_props_def)

subsection \<open>Spacing between the buttons\<close>

text \<open>
  C6. The element of the button at index \<open>idx\<close> has two children: the button control,
  and before it a spacing element when \<open>idx\<close> is at least 1, the value
  \<^verbatim>\<open>false\<close> when \<open>idx\<close> is 0. So what is displayed is the spacing followed by
  the control for \<open>idx\<close> at least 1, and the control alone for \<open>idx\<close> 0.
\<close>

theorem spacing_before_later_buttons:
  assumes "ApplicationFooter env props = Inr v"
    and "idx < length (buttons_of props)"
  shows "children_of (button_region v ! idx) =
           [if 1 \<le> idx then Spacing (PADDING_UNITS env) else JSFalse,
            KeyboardShortcutButton (rendered_buttons v ! idx)
              [string_child (label (buttons_of props ! idx))]]
       \<and> displayed (children_of (button_region v ! idx)) =
           (if 1 \<le> idx
            then [Spacing (PADDING_UNITS env),
                  KeyboardShortcutButton (rendered_buttons v ! idx)
                    [string_child (label (buttons_of props ! idx))]]
            else [KeyboardShortcutButton (rendered_buttons v ! idx)
                    [string_child (label (buttons_of props ! idx))]])"
proof -
  let ?e = "button_element env props (length (buttons_of props))
              (buttons_of props ! idx) idx"
  have e: "button_region v ! idx = ?e"
    using assms by (rule button_region_nth)
  have "[rendered_buttons v ! idx] = button_controls ?e"
    using assms by (rule rendered_buttons_nth)
  then have "hd (button_controls ?e) = rendered_buttons v ! idx"
    by (metis list.sel(1))
  then have "children_of ?e =
           [if 1 \<le> idx then Spacing (PADDING_UNITS env) else JSFalse,
            KeyboardShortcutButton (rendered_buttons v ! idx)
              [string_child (label (buttons_of props ! idx))]]"
    by (simp only: children_of_callback)
  with e show ?thesis by simp
qed

theorem spacing_before_later_buttons_witness:
  "displayed (children_of
     (button_region (projr (ApplicationFooter example_env (two_buttons ''red''))) ! 0)) =
     [KeyboardShortcutButton
        (rendered_buttons (projr (ApplicationFooter example_env (two_buttons ''red''))) ! 0)
        [JSString ''Run'']]
   \<and> displayed (children_of
     (button_region (projr (ApplicationFooter example_env (two_buttons ''red''))) ! 1)) =
     [Spacing 2,
      KeyboardShortcutButton
        (rendered_buttons (projr (ApplicationFooter example_env (two_buttons ''red''))) ! 1)
        [JSString ''Close'']]"
  using spacing_before_later_buttons [OF two_buttons_renders, of 0 "''red''"]
    spacing_before_later_buttons [OF two_buttons_renders, of 1 "''red''"]
  by (simp add: buttons_of_two_buttons run_button_def close_button_def string_child_def
      example_env_def)

subsection \<open>Keys\<close>

text \<open>
  C7. The key of the element rendered for a button is the label of the button. So the
  keys of the elements of one application are pairwise distinct exactly when the labels of
  its buttons are: distinct labels are what the identity of the elements across renders
  rests on.
\<close>

theorem buttons_keyed_by_label:
  assumes "ApplicationFooter env props = Inr v"
  shows "map key_of (button_region v) = map label (buttons_of props)
       \<and> (distinct (map key_of (button_region v)) \<longleftrightarrow> distinct (map label (buttons_of props)))"
proof -
  have "key_of (button_element env props n button idx) = label button"
    for n idx button
    by (simp add: button_element_def buttons_map_callback_def Let_def)
  then have "map key_of (button_region v) = map (label \<circ> snd) (enumerate 0 (buttons_of props))"
    by (simp add: button_region_eq [OF assms] case_prod_beta comp_def)
  also have "\<dots> = map label (buttons_of props)"
    by (simp flip: map_map)
  finally show ?thesis by simp
qed

theorem buttons_keyed_by_label_witness:
  "map key_of (button_region (projr (ApplicationFooter example_env (two_buttons ''red'')))) =
     [Some ''Run'', Some ''Close'']
   \<and> distinct
     (map key_of (button_region (projr (ApplicationFooter example_env (two_buttons ''red'')))))"
  using buttons_keyed_by_label [OF two_buttons_renders, of "''red''"]
  by (simp add: buttons_of_two_buttons run_button_def close_button_def)

subsection \<open>The two styling flags\<close>

text \<open>
  C9. Every button control of the rendered tree has equal \<^verbatim>\<open>default\<close> and
  \<^verbatim>\<open>noBackground\<close> flags.
\<close>

theorem default_equals_noBackground:
  assumes "ApplicationFooter env props = Inr v"
  shows "\<forall>c \<in> set (button_controls v). default_prop c = noBackground c"
proof -
  have "default_prop (hd (button_controls (button_element env props n button idx))) =
        noBackground (hd (button_controls (button_element env props n button idx)))"
    for n idx button
    by (simp add: button_controls_callback)
  then show ?thesis
    by (auto simp: button_controls_footer [OF assms] rendered_buttons_eq [OF assms])
qed

theorem default_equals_noBackground_witness:
  "length (button_controls (projr (ApplicationFooter example_env (two_buttons ''red'')))) = 2
   \<and> list_all (\<lambda>c. default_prop c = noBackground c)
       (button_controls (projr (ApplicationFooter example_env (two_buttons ''red''))))"
  using default_equals_noBackground [OF two_buttons_renders, of "''red''"]
    length_rendered_buttons [OF two_buttons_renders, of "''red''"]
  by (simp add: button_controls_footer [OF two_buttons_renders] buttons_of_two_buttons
      list_all_iff)

subsection \<open>Absent data\<close>




lemma rendered_button_props:
  assumes "ApplicationFooter env props = Inr v" and "idx < length (buttons_of props)"
  shows "keyTextGroups (rendered_buttons v ! idx) =
         map_option (map (map_option (map (KEY_CODE_KEY_SYMBOL_MAPPING env))))
           (keyboard_shortcuts (buttons_of props ! idx))"
    and "addPlusSignBetweenKeys (rendered_buttons v ! idx)"
    and "onClick (rendered_buttons v ! idx) =
         executeButtonActions env
           \<lparr>args_application = application props,
            args_button = buttons_of props ! idx,
            args_executeAction = executeAction props,
            args_focusedItemIndex = focusedItemIndex props,
            args_item = item props,
            args_refError = refError props,
            args_removeApplication = removeApplication props\<rparr>"
proof -
  have "[rendered_buttons v ! idx] =
         button_controls
           (button_element env props (length (buttons_of props))
              (buttons_of props ! idx) idx)"
    using assms by (rule rendered_buttons_nth)
  then show "keyTextGroups (rendered_buttons v ! idx) =
         map_option (map (map_option (map (KEY_CODE_KEY_SYMBOL_MAPPING env))))
           (keyboard_shortcuts (buttons_of props ! idx))"
    and "addPlusSignBetweenKeys (rendered_buttons v ! idx)"
    and "onClick (rendered_buttons v ! idx) =
         executeButtonActions env
           \<lparr>args_application = application props,
            args_button = buttons_of props ! idx,
            args_executeAction = executeAction props,
            args_focusedItemIndex = focusedItemIndex props,
            args_item = item props,
            args_refError = refError props,
            args_removeApplication = removeApplication props\<rparr>"
    by (simp_all add: button_controls_callback)
qed

subsection \<open>Key texts\<close>

text \<open>
  C4. The key-text groups of a button control are the keyboard-shortcut sequences of its
  button with every key code replaced by what the table holds for it: as many groups as
  sequences, each group as long as its sequence, and at each position the symbol of the
  key code at that position, absent when the table does not hold the code. The control is
  asked to put a sign between the keys. For the sequences \<open>[[a, b]]\<close> with \<open>a\<close> mapped
  to \<open>x\<close> and \<open>b\<close> to \<open>y\<close> the one group is \<open>x\<close> then \<open>y\<close>, shown as \<open>x\<close>, the
  separator, \<open>y\<close>.
\<close>

theorem key_codes_mapped_in_order:
  assumes "ApplicationFooter env props = Inr v"
    and "idx < length (buttons_of props)"
  shows "keyTextGroups (rendered_buttons v ! idx) =
           map_option (map (map_option (map (KEY_CODE_KEY_SYMBOL_MAPPING env))))
             (keyboard_shortcuts (buttons_of props ! idx))
       \<and> addPlusSignBetweenKeys (rendered_buttons v ! idx)
       \<and> (\<forall>seqs g ks j.
             keyboard_shortcuts (buttons_of props ! idx) = Some seqs
             \<and> g < length seqs \<and> seqs ! g = Some ks \<and> j < length ks \<longrightarrow>
             (\<exists>groups syms.
                keyTextGroups (rendered_buttons v ! idx) = Some groups
                \<and> length groups = length seqs
                \<and> groups ! g = Some syms
                \<and> length syms = length ks
                \<and> syms ! j = KEY_CODE_KEY_SYMBOL_MAPPING env (ks ! j)))
       \<and> (\<forall>a b x y.
             keyboard_shortcuts (buttons_of props ! idx) = Some [Some [a, b]]
             \<and> KEY_CODE_KEY_SYMBOL_MAPPING env a = Some x
             \<and> KEY_CODE_KEY_SYMBOL_MAPPING env b = Some y \<longrightarrow>
             (\<exists>keyTextGroup.
                keyTextGroups (rendered_buttons v ! idx) = Some [Some keyTextGroup]
                \<and> keyTextGroup = [Some x, Some y]
                \<and> shown_key_text_group sep keyTextGroup = [Some x, Some sep, Some y]))"
proof -
  note g = rendered_button_props(1) [OF assms]
  show ?thesis
  proof (intro conjI allI impI)
    show "keyTextGroups (rendered_buttons v ! idx) =
           map_option (map (map_option (map (KEY_CODE_KEY_SYMBOL_MAPPING env))))
             (keyboard_shortcuts (buttons_of props ! idx))"
      by (rule g)
    show "addPlusSignBetweenKeys (rendered_buttons v ! idx)"
      using assms by (rule rendered_button_props(2))
  next
    fix seqs g' ks j
    assume "keyboard_shortcuts (buttons_of props ! idx) = Some seqs
             \<and> g' < length seqs \<and> seqs ! g' = Some ks \<and> j < length ks"
    then show "\<exists>groups syms.
                keyTextGroups (rendered_buttons v ! idx) = Some groups
                \<and> length groups = length seqs
                \<and> groups ! g' = Some syms
                \<and> length syms = length ks
                \<and> syms ! j = KEY_CODE_KEY_SYMBOL_MAPPING env (ks ! j)"
      by (simp add: g)
  next
    fix a b x y
    assume "keyboard_shortcuts (buttons_of props ! idx) = Some [Some [a, b]]
             \<and> KEY_CODE_KEY_SYMBOL_MAPPING env a = Some x
             \<and> KEY_CODE_KEY_SYMBOL_MAPPING env b = Some y"
    then show "\<exists>keyTextGroup.
                keyTextGroups (rendered_buttons v ! idx) = Some [Some keyTextGroup]
                \<and> keyTextGroup = [Some x, Some y]
                \<and> shown_key_text_group sep keyTextGroup = [Some x, Some sep, Some y]"
      by (simp add: g shown_key_text_group_def)
  qed
qed

theorem key_codes_mapped_in_order_witness:
  "keyTextGroups
     (rendered_buttons (projr (ApplicationFooter example_env (two_buttons ''red''))) ! 0) =
     Some [Some [Some command_symbol, Some ''K'']]
   \<and> shown_key_text_group ''+'' [Some command_symbol, Some ''K''] =
     [Some command_symbol, Some ''+'', Some ''K'']
   \<and> keyTextGroups
     (rendered_buttons (projr (ApplicationFooter example_env
        (example_props (Some \<lparr>buttons =
           Some [Some \<lparr>display_settings = None,
                  keyboard_shortcuts = Some [Some [75, 13, 91]],
                  label = None, tooltip = None\<rparr>],
           app_uuid = None\<rparr>)))) ! 0) =
     Some [Some [Some ''K'', None, Some command_symbol]]"
proof -
  have "keyTextGroups
     (rendered_buttons (projr (ApplicationFooter example_env (two_buttons ''red''))) ! 0) =
     Some [Some [Some command_symbol, Some ''K'']]
   \<and> shown_key_text_group ''+'' [Some command_symbol, Some ''K''] =
     [Some command_symbol, Some ''+'', Some ''K'']"
    using key_codes_mapped_in_order [OF two_buttons_renders, of 0 "''red''" "''+''",
        THEN conjunct2, THEN conjunct2, THEN conjunct2, rule_format,
        of 91 75 command_symbol "''K''"]
    by (simp add: buttons_of_two_buttons run_button_def example_env_def)
  moreover have "keyTextGroups
     (rendered_buttons (projr (ApplicationFooter example_env
        (example_props (Some \<lparr>buttons =
           Some [Some \<lparr>display_settings = None,
                  keyboard_shortcuts = Some [Some [75, 13, 91]],
                  label = None, tooltip = None\<rparr>],
           app_uuid = None\<rparr>)))) ! 0) =
     Some [Some [Some ''K'', None, Some command_symbol]]"
  proof -
    have r: "ApplicationFooter example_env
        (example_props (Some \<lparr>buttons =
           Some [Some \<lparr>display_settings = None,
                  keyboard_shortcuts = Some [Some [75, 13, 91]],
                  label = None, tooltip = None\<rparr>],
           app_uuid = None\<rparr>)) =
      Inr (projr (ApplicationFooter example_env
        (example_props (Some \<lparr>buttons =
           Some [Some \<lparr>display_settings = None,
                  keyboard_shortcuts = Some [Some [75, 13, 91]],
                  label = None, tooltip = None\<rparr>],
           app_uuid = None\<rparr>))))"
      by (rule example_props_renders [OF buttons_present_example(4)])
    from key_codes_mapped_in_order [OF r, of 0 "''+''", THEN conjunct1]
    show ?thesis
      by (simp add: buttons_of_def example_props_def example_env_def map_filter_simps)
  qed
  ultimately show ?thesis by simp
qed

subsection \<open>Clicks\<close>

text \<open>
  C2. The click handler of the control rendered for a button is one call of
  \<^verbatim>\<open>executeButtonActions\<close> at the object holding the props' \<^verbatim>\<open>application\<close>,
  the button itself, and the props' \<^verbatim>\<open>executeAction\<close>,
  \<^verbatim>\<open>focusedItemIndex\<close>, \<^verbatim>\<open>item\<close>, \<^verbatim>\<open>refError\<close> and
  \<^verbatim>\<open>removeApplication\<close>: the handler is the effect of the executor at that object,
  result and world as the executor leaves them. With an executor that records its calls,
  a click adds exactly one call, with that object, to the record.
\<close>

theorem click_calls_executor_once:
  assumes "ApplicationFooter env props = Inr v"
    and "ApplicationFooter (with_executor env (logged f)) props = Inr v'"
    and "idx < length (buttons_of props)"
  shows "let args =
           \<lparr>args_application = application props,
            args_button = buttons_of props ! idx,
            args_executeAction = executeAction props,
            args_focusedItemIndex = focusedItemIndex props,
            args_item = item props,
            args_refError = refError props,
            args_removeApplication = removeApplication props\<rparr>
         in onClick (rendered_buttons v ! idx) = executeButtonActions env args
          \<and> onClick (rendered_buttons v' ! idx) (w, calls) =
              (fst (f args w), (snd (f args w), calls @ [args]))"
  using rendered_button_props(3) [OF assms(1,3)] rendered_button_props(3) [OF assms(2,3)]
  by (simp add: Let_def with_executor_def logged_def split: prod.split)

theorem click_calls_executor_once_witness:
  "onClick
     (rendered_buttons
        (projr (ApplicationFooter
           (with_executor example_env (logged (executeButtonActions example_env)))
           (two_buttons ''red''))) ! 1)
     (0, []) =
   (\<lparr>args_application = application (two_buttons ''red''),
     args_button = close_button,
     args_executeAction = ''executeAction'',
     args_focusedItemIndex = Some 0,
     args_item = Some example_item,
     args_refError = ''refError'',
     args_removeApplication = ''removeApplication''\<rparr>,
    (1,
     [\<lparr>args_application = application (two_buttons ''red''),
       args_button = close_button,
       args_executeAction = ''executeAction'',
       args_focusedItemIndex = Some 0,
       args_item = Some example_item,
       args_refError = ''refError'',
       args_removeApplication = ''removeApplication''\<rparr>]))"
proof -
  have r: "ApplicationFooter
           (with_executor example_env (logged (executeButtonActions example_env)))
           (two_buttons ''red'') =
         Inr (projr (ApplicationFooter
           (with_executor example_env (logged (executeButtonActions example_env)))
           (two_buttons ''red'')))"
    by (rule two_buttons_renders_any)
  have fields: "executeAction (two_buttons ''red'') = ''executeAction''"
    "focusedItemIndex (two_buttons ''red'') = Some 0"
    "item (two_buttons ''red'') = Some example_item"
    "refError (two_buttons ''red'') = ''refError''"
    "removeApplication (two_buttons ''red'') = ''removeApplication''"
    by (simp_all add: two_buttons_def example_props_def)
  have "executeButtonActions example_env = (\<lambda>a n. (a, Suc n))"
    by (simp add: example_env_def)
  with click_calls_executor_once [OF two_buttons_renders r, of 1 0 "[]"]
  show ?thesis
    by (simp add: Let_def buttons_of_two_buttons fields)
qed

lemma map_view_string_child: "map_view f g (string_child l) = string_child l"
  by (cases l) (simp_all add: string_child_def)

lemma shortcuts_cong:
  assumes "list_all (\<lambda>k. T k = T' k) (button_key_codes button)"
  shows "map_option (map (map_option (map T))) (keyboard_shortcuts button) =
         map_option (map (map_option (map T'))) (keyboard_shortcuts button)"
proof (cases "keyboard_shortcuts button")
  case None
  then show ?thesis by simp
next
  case (Some seqs)
  have "map (map_option (map T)) seqs = map (map_option (map T')) seqs"
    if "list_all (\<lambda>k. T k = T' k)
          (concat (map (\<lambda>arr. case arr of None \<Rightarrow> [] | Some ks \<Rightarrow> ks) seqs))"
    using that
  proof (induction seqs)
    case Nil
    show ?case by simp
  next
    case (Cons arr seqs)
    then show ?case
      by (cases arr) (auto simp: list_all_iff)
  qed
  with assms Some show ?thesis by (simp add: button_key_codes_def)
qed

lemma array_map_rel:
  assumes "\<And>x i. x \<in> set xs \<Longrightarrow> map_sum id h (f x i) = map_sum id h' (f' (k x) i)"
  shows "map_sum id (map h) (array_map f m xs) =
         map_sum id (map h') (array_map f' m (map k xs))"
  using assms
proof (induction xs arbitrary: m)
  case Nil
  show ?case by simp
next
  case (Cons x xs)
  have hd: "map_sum id h (f x m) = map_sum id h' (f' (k x) m)"
    by (rule Cons.prems) simp
  have tl: "map_sum id (map h) (array_map f (Suc m) xs) =
            map_sum id (map h') (array_map f' (Suc m) (map k xs))"
    by (rule Cons.IH) (rule Cons.prems, simp)
  show ?case
  proof (cases "f x m")
    case (Inl e)
    with hd show ?thesis by (cases "f' (k x) m") simp_all
  next
    case (Inr y)
    with hd obtain y' where y': "f' (k x) m = Inr y'" and yy: "h y = h' y'"
      by (cases "f' (k x) m") simp_all
    show ?thesis
    proof (cases "array_map f (Suc m) xs")
      case (Inl e)
      with tl Inr y' show ?thesis
        by (cases "array_map f' (Suc m) (map k xs)") simp_all
    next
      case ys: (Inr ys)
      with tl Inr y' yy show ?thesis
        by (cases "array_map f' (Suc m) (map k xs)") simp_all
    qed
  qed
qed

lemma callback_map_cong:
  assumes "list_all (\<lambda>k. KEY_CODE_KEY_SYMBOL_MAPPING env k = KEY_CODE_KEY_SYMBOL_MAPPING env' k)
             (case member of None \<Rightarrow> [] | Some button \<Rightarrow> button_key_codes button)"
    and "PADDING_UNITS env = PADDING_UNITS env'"
    and "\<And>args. g (executeButtonActions env args) = g' (executeButtonActions env' args)"
  shows "map_sum id (map_view id g) (buttons_map_callback env props n member idx) =
         map_sum id (map_view id g') (buttons_map_callback env' props n member idx)"
proof (cases member)
  case None
  then show ?thesis by (simp add: buttons_map_callback_def)
next
  case (Some button)
  with assms(1) have "list_all
      (\<lambda>k. KEY_CODE_KEY_SYMBOL_MAPPING env k = KEY_CODE_KEY_SYMBOL_MAPPING env' k)
      (button_key_codes button)"
    by simp
  from shortcuts_cong [OF this] assms(2,3) Some show ?thesis
    by (simp add: buttons_map_callback_def Let_def map_view_string_child)
qed

lemma key_codes_member:
  assumes "list_all P (concat (map button_key_codes (List.map_filter (\<lambda>member. member) bs)))"
    and "member \<in> set bs"
  shows "list_all P (case member of None \<Rightarrow> [] | Some button \<Rightarrow> button_key_codes button)"
  using assms by (induction bs) (auto split: option.splits)

lemma callbacks_map_cong:
  assumes "list_all (\<lambda>k. KEY_CODE_KEY_SYMBOL_MAPPING env k = KEY_CODE_KEY_SYMBOL_MAPPING env' k)
             (concat (map button_key_codes (List.map_filter (\<lambda>member. member) bs)))"
    and "PADDING_UNITS env = PADDING_UNITS env'"
    and "\<And>args. g (executeButtonActions env args) = g' (executeButtonActions env' args)"
  shows "map_sum id (map (map_view id g)) (array_map (buttons_map_callback env props n) m bs) =
         map_sum id (map (map_view id g')) (array_map (buttons_map_callback env' props n) m bs)"
proof -
  have "map_sum id (map (map_view id g)) (array_map (buttons_map_callback env props n) m bs) =
        map_sum id (map (map_view id g'))
          (array_map (buttons_map_callback env' props n) m (map (\<lambda>member. member) bs))"
  proof (rule array_map_rel)
    fix member i
    assume "member \<in> set bs"
    with assms(1) have "list_all
        (\<lambda>k. KEY_CODE_KEY_SYMBOL_MAPPING env k = KEY_CODE_KEY_SYMBOL_MAPPING env' k)
        (case member of None \<Rightarrow> [] | Some button \<Rightarrow> button_key_codes button)"
      by (rule key_codes_member)
    then show "map_sum id (map_view id g) (buttons_map_callback env props n member i) =
         map_sum id (map_view id g') (buttons_map_callback env' props n member i)"
      using assms(2) assms(3) by (rule callback_map_cong)
  qed
  then show ?thesis by simp
qed

lemma ApplicationFooter_map_cong:
  assumes "same_lookups env env' props"
    and "\<And>args. g (executeButtonActions env args) = g' (executeButtonActions env' args)"
  shows "map_sum id (map_view id g) (ApplicationFooter env props) =
         map_sum id (map_view id g') (ApplicationFooter env' props)"
proof (cases "item props")
  case None
  then show ?thesis by (simp add: ApplicationFooter_def)
next
  case (Some it)
  show ?thesis
  proof (cases "Option.bind (application props) buttons")
    case None
    with Some assms(1) show ?thesis
      by (simp add: ApplicationFooter_def same_lookups_def map_view_string_child)
  next
    case bs: (Some bs)
    then have "buttons_of props = List.map_filter (\<lambda>member. member) bs"
      by (simp add: buttons_of_def)
    with assms(1) have "list_all (\<lambda>k. KEY_CODE_KEY_SYMBOL_MAPPING env k = KEY_CODE_KEY_SYMBOL_MAPPING env' k)
             (concat (map button_key_codes (List.map_filter (\<lambda>member. member) bs)))"
      and p: "PADDING_UNITS env = PADDING_UNITS env'"
      by (simp_all add: same_lookups_def key_codes_def)
    then have rel: "map_sum id (map (map_view id g))
           (array_map (buttons_map_callback env props (length bs)) 0 bs) =
         map_sum id (map (map_view id g'))
           (array_map (buttons_map_callback env' props (length bs)) 0 bs)"
      using assms(2) by (rule callbacks_map_cong)
    show ?thesis
    proof (cases "array_map (buttons_map_callback env props (length bs)) 0 bs")
      case (Inl e)
      with rel Some bs show ?thesis
        by (cases "array_map (buttons_map_callback env' props (length bs)) 0 bs")
          (simp_all add: ApplicationFooter_def)
    next
      case (Inr els)
      with rel Some bs assms(1) show ?thesis
        by (cases "array_map (buttons_map_callback env' props (length bs)) 0 bs")
          (simp_all add: ApplicationFooter_def same_lookups_def map_view_string_child)
    qed
  qed
qed

subsection \<open>Rendering as a function of its inputs\<close>

text \<open>
  C8. The component is a function of the module environment and the props, with no world
  to read or change; the executor is only placed inside the click handlers. Two
  environments whose lookups agree where the component consults them for the props (the
  icon and the colour of the item, the symbols of the key codes of the buttons, the spacing
  constants) and whose executors are equal give equal results; and whatever the executor
  is, and whatever the type of its effects, the result without its click handlers is the
  same, so nothing of the executor reaches the tree but the handlers.
\<close>

theorem render_deterministic:
  assumes "same_lookups env env' props"
    and "executeButtonActions env = executeButtonActions env'"
    and "same_lookups env env'' props"
  shows "ApplicationFooter env props = ApplicationFooter env' props
       \<and> without_handlers (ApplicationFooter env props) =
           without_handlers (ApplicationFooter env'' props)"
proof
  have "map_sum id (map_view id id) (ApplicationFooter env props) =
        map_sum id (map_view id id) (ApplicationFooter env' props)"
    using assms(1) by (rule ApplicationFooter_map_cong) (simp add: assms(2))
  then show "ApplicationFooter env props = ApplicationFooter env' props"
    by (simp add: view.map_id0 sum.map_id0)
  show "without_handlers (ApplicationFooter env props) =
        without_handlers (ApplicationFooter env'' props)"
    unfolding without_handlers_def
    using assms(3) by (rule ApplicationFooter_map_cong) simp
qed

theorem render_deterministic_witness:
  "ApplicationFooter example_env (two_buttons ''red'') =
   ApplicationFooter
     (example_env\<lparr>getIcon := (\<lambda>it. if it = example_item then ''PipelineIcon'' else ''Icon''),
        KEY_CODE_KEY_SYMBOL_MAPPING := [91 \<mapsto> command_symbol, 75 \<mapsto> ''K'', 13 \<mapsto> ''Enter'']\<rparr>)
     (two_buttons ''red'')
   \<and> without_handlers (ApplicationFooter example_env (two_buttons ''red'')) =
     without_handlers
       (ApplicationFooter
          (with_executor example_env (logged (executeButtonActions example_env)))
          (two_buttons ''red''))"
proof -
  have k: "key_codes (two_buttons ''red'') = [91, 75]"
    by (simp add: key_codes_def buttons_of_two_buttons button_key_codes_def
        run_button_def close_button_def)
  have i: "item (two_buttons ''red'') = Some example_item"
    by (simp add: two_buttons_def example_props_def)
  have 1: "same_lookups example_env
     (example_env\<lparr>getIcon := (\<lambda>it. if it = example_item then ''PipelineIcon'' else ''Icon''),
        KEY_CODE_KEY_SYMBOL_MAPPING := [91 \<mapsto> command_symbol, 75 \<mapsto> ''K'', 13 \<mapsto> ''Enter'']\<rparr>)
     (two_buttons ''red'')"
    by (simp add: same_lookups_def k i example_env_def)
  have 2: "executeButtonActions example_env =
     executeButtonActions
     (example_env\<lparr>getIcon := (\<lambda>it. if it = example_item then ''PipelineIcon'' else ''Icon''),
        KEY_CODE_KEY_SYMBOL_MAPPING := [91 \<mapsto> command_symbol, 75 \<mapsto> ''K'', 13 \<mapsto> ''Enter'']\<rparr>)"
    by simp
  have 3: "same_lookups example_env
     (with_executor example_env (logged (executeButtonActions example_env)))
     (two_buttons ''red'')"
    by (simp add: same_lookups_def k i with_executor_def)
  from render_deterministic [OF 1 2 3] show ?thesis .
qed

lemma forget_color_uuid_fields:
  "item (forget_color_uuid props) = item props"
  "executeAction (forget_color_uuid props) = executeAction props"
  "Option.bind (application (forget_color_uuid props)) app_uuid =
   Option.bind (application props) app_uuid"
  "Option.bind (application (forget_color_uuid props)) buttons =
   map_option
     (map (map_option (\<lambda>button. button\<lparr>display_settings :=
        map_option (\<lambda>d. d\<lparr>color_uuid := None\<rparr>) (display_settings button)\<rparr>)))
     (Option.bind (application props) buttons)"
  by (cases "application props"; simp add: forget_color_uuid_def)+

lemma erased_callback_forget:
  "map_sum id (map_view id (\<lambda>h. ()))
     (buttons_map_callback env props n member idx) =
   map_sum id (map_view id (\<lambda>h. ()))
     (buttons_map_callback env (forget_color_uuid props) n
        (map_option (\<lambda>button. button\<lparr>display_settings := e button\<rparr>) member) idx)"
  by (cases member)
    (simp_all add: buttons_map_callback_def Let_def forget_color_uuid_fields
      map_view_string_child)

lemma erased_callbacks_forget:
  "map_sum id (map (map_view id (\<lambda>h. ())))
     (array_map (buttons_map_callback env props n) m bs) =
   map_sum id (map (map_view id (\<lambda>h. ())))
     (array_map (buttons_map_callback env (forget_color_uuid props) n) m
        (map (map_option (\<lambda>button. button\<lparr>display_settings := e button\<rparr>)) bs))"
  by (rule array_map_rel) (rule erased_callback_forget)

lemma without_handlers_forget:
  "without_handlers (ApplicationFooter env (forget_color_uuid props)) =
   without_handlers (ApplicationFooter env props)"
proof (cases "item props")
  case None
  then show ?thesis
    by (simp add: ApplicationFooter_def forget_color_uuid_fields)
next
  case (Some it)
  show ?thesis
  proof (cases "Option.bind (application props) buttons")
    case None
    with Some show ?thesis
      by (simp add: ApplicationFooter_def forget_color_uuid_fields without_handlers_def)
  next
    case bs: (Some bs)
    let ?e = "\<lambda>button. map_option (\<lambda>d. d\<lparr>color_uuid := None\<rparr>) (display_settings button)"
    let ?bs' = "map (map_option (\<lambda>button. button\<lparr>display_settings := ?e button\<rparr>)) bs"
    have rel: "map_sum id (map (map_view id (\<lambda>h. ())))
         (array_map (buttons_map_callback env props (length bs)) 0 bs) =
       map_sum id (map (map_view id (\<lambda>h. ())))
         (array_map (buttons_map_callback env (forget_color_uuid props) (length bs)) 0 ?bs')"
      by (rule erased_callbacks_forget)
    show ?thesis
    proof (cases "array_map (buttons_map_callback env props (length bs)) 0 bs")
      case (Inl e)
      with rel Some bs show ?thesis
        by (cases "array_map (buttons_map_callback env (forget_color_uuid props) (length bs))
              0 ?bs'")
          (simp_all add: ApplicationFooter_def forget_color_uuid_fields without_handlers_def)
    next
      case (Inr els)
      with rel Some bs show ?thesis
        by (cases "array_map (buttons_map_callback env (forget_color_uuid props) (length bs))
              0 ?bs'")
          (simp_all add: ApplicationFooter_def forget_color_uuid_fields without_handlers_def
            map_view_string_child)
    qed
  qed
qed

subsection \<open>The accent colour of a button\<close>

text \<open>
  C10, as amended. Two props that differ only in the \<^verbatim>\<open>color_uuid\<close> of the display
  settings of buttons of the application give results that are equal once the click
  handlers are left out.
\<close>

theorem view_independent_of_color_uuid:
  assumes "forget_color_uuid props = forget_color_uuid props'"
  shows "without_handlers (ApplicationFooter env props) =
         without_handlers (ApplicationFooter env props')"
proof -
  have "without_handlers (ApplicationFooter env props) =
        without_handlers (ApplicationFooter env (forget_color_uuid props))"
    by (simp only: without_handlers_forget)
  also have "\<dots> = without_handlers (ApplicationFooter env (forget_color_uuid props'))"
    by (simp only: assms)
  also have "\<dots> = without_handlers (ApplicationFooter env props')"
    by (simp only: without_handlers_forget)
  finally show ?thesis .
qed

lemma forget_two_buttons:
  "forget_color_uuid (two_buttons c) = forget_color_uuid (two_buttons c')"
  by (simp add: forget_color_uuid_def two_buttons_def example_props_def run_button_def)

theorem view_independent_of_color_uuid_witness:
  "forget_color_uuid (two_buttons ''red'') = forget_color_uuid (two_buttons ''blue'')
   \<and> without_handlers (ApplicationFooter example_env (two_buttons ''red'')) =
     without_handlers (ApplicationFooter example_env (two_buttons ''blue''))"
  using view_independent_of_color_uuid [OF forget_two_buttons [of "''red''" "''blue''"],
      where env = example_env]
    forget_two_buttons [of "''red''" "''blue''"]
  by simp

text \<open>
  C10, as stated, fails: the results themselves differ, because each click handler hands
  the whole button (and the application) on to the executor. The two props below differ
  in the colour of the first button only, and a click on that button gives the executor
  two different arguments.
\<close>

theorem color_uuid_reaches_click_handler:
  "forget_color_uuid (two_buttons ''red'') = forget_color_uuid (two_buttons ''blue'')
   \<and> ApplicationFooter example_env (two_buttons ''red'') \<noteq>
     ApplicationFooter example_env (two_buttons ''blue'')"
proof
  show "forget_color_uuid (two_buttons ''red'') = forget_color_uuid (two_buttons ''blue'')"
    by (rule forget_two_buttons)
  show "ApplicationFooter example_env (two_buttons ''red'') \<noteq>
     ApplicationFooter example_env (two_buttons ''blue'')"
  proof
    assume eq: "ApplicationFooter example_env (two_buttons ''red'') =
       ApplicationFooter example_env (two_buttons ''blue'')"
    have h: "onClick (rendered_buttons (projr (ApplicationFooter example_env (two_buttons c))) ! 0) 0
        = (\<lparr>args_application = application (two_buttons c),
            args_button = run_button c,
            args_executeAction = executeAction (two_buttons c),
            args_focusedItemIndex = focusedItemIndex (two_buttons c),
            args_item = item (two_buttons c),
            args_refError = refError (two_buttons c),
            args_removeApplication = removeApplication (two_buttons c)\<rparr>, 1)" for c
      using rendered_button_props(3) [OF two_buttons_renders, of 0 c]
      by (simp add: buttons_of_two_buttons example_env_def)
    from h [of "''red''"] h [of "''blue''"] eq
    have "run_button ''red'' = run_button ''blue''" by simp
    then show False by (simp add: run_button_def)
  qed
qed

end
